theory Spec2Isabelle
  imports Main "HOL-Library.Char_ord" "HOL-Library.List_Lexorder"
    "HOL-Library.Code_Target_Numeral"
begin

section \<open>Timestamp generation for stereo offline processing\<close>

text \<open>
  A shallow embedding of \<^verbatim>\<open>Examples/Stereo/generate_timestamps.py\<close>. The script lists the
  PNG files of a directory, and writes one line \<^verbatim>\<open>timestamp filename\<close> per frame, the
  timestamps coming either from a fixed frame rate or from a CSV table.

  Strings are \<^typ>\<open>string\<close>; a character stands for the code point of the same number, so the
  texts covered are those of code points below 256. Every \<^verbatim>\<open>sys.exit\<close>, \<^verbatim>\<open>parser.error\<close>
  and uncaught exception of the script is a value of \<open>error\<close>; a function that touches the
  file system takes the \<open>world\<close> and returns it with its result.
\<close>

subsection \<open>Errors\<close>

text \<open>
  The first five constructors are the script's own fatal exits, under the names the
  specification gives them: the two \<^verbatim>\<open>parser.error\<close> calls of \<^verbatim>\<open>main\<close>, the directory check
  of \<^verbatim>\<open>main\<close>, "No PNG files found", "No valid timestamps found" and "Number of timestamps
  (a) doesn't match number of images (b)". The others are Python exceptions.
\<close>

datatype error =
    InvalidInvocation
  | DirectoryNotFound string
  | EmptyDirectory string
  | NoValidRows string
  | CountMismatch nat nat
  | ValueError
  | IndexError
  | ZeroDivisionError
  | OverflowError
  | FileNotFoundError string
  | CsvError

subsection \<open>Strings, indexing and paths\<close>

definition startswith :: "string \<Rightarrow> string \<Rightarrow> bool" where
  "startswith s p = (take (length p) s = p)"

text \<open>Python's \<^verbatim>\<open>xs[i]\<close>: a negative index counts from the end, out of range raises.\<close>

definition py_index :: "'a list \<Rightarrow> int \<Rightarrow> error + 'a" where
  "py_index xs i =
     (if 0 \<le> i \<and> i < int (length xs) then Inr (xs ! nat i)
      else if i < 0 \<and> - int (length xs) \<le> i then Inr (xs ! nat (int (length xs) + i))
      else Inl IndexError)"

text \<open>\<^verbatim>\<open>posixpath.join\<close> of two components, and \<^verbatim>\<open>posixpath.basename\<close>.\<close>

definition os_path_join :: "string \<Rightarrow> string \<Rightarrow> string" where
  "os_path_join a b =
     (if startswith b ''/'' then b
      else if a = [] \<or> last a = CHR ''/'' then a @ b
      else a @ ''/'' @ b)"

definition os_path_basename :: "string \<Rightarrow> string" where
  "os_path_basename p = rev (takeWhile (\<lambda>c. c \<noteq> CHR ''/'') (rev p))"

subsection \<open>The file system\<close>

text \<open>
  What the script sees of the file system. \<open>glob w p\<close> is the list \<^verbatim>\<open>glob.glob(p)\<close> returns
  for the pattern \<open>p\<close>, in the order in which it finds the paths; \<open>files w p\<close> is the text
  of the file at \<open>p\<close>, if there is one. \<open>png_entries w d\<close> are the names of the PNG files
  that the directory \<open>d\<close> itself holds, in the order in which the directory is read: the
  script never asks for them, they are here to say what the directory contains.
\<close>

record world =
  isdir :: "string \<Rightarrow> bool"
  png_entries :: "string \<Rightarrow> string list"
  glob :: "string \<Rightarrow> string list"
  files :: "string \<Rightarrow> string option"

definition get_sorted_images :: "world \<Rightarrow> string \<Rightarrow> string list" where
  "get_sorted_images w directory =
     (let pattern = os_path_join directory ''*.png'';
          images = glob w pattern;
          images = sort images
      in map os_path_basename images)"

definition write_file :: "string \<Rightarrow> string \<Rightarrow> world \<Rightarrow> world" where
  "write_file path text w = w\<lparr>files := (files w)(path \<mapsto> text)\<rparr>"

subsection \<open>Python floats\<close>

text \<open>
  A Python float is an IEEE 754 binary64 number. \<open>Finite s m e\<close> is \<open>(-1)^s * m * 2^e\<close>, kept
  with \<open>m\<close> odd, or \<open>m = 0\<close> and \<open>e = 0\<close> for the two zeros; the sign \<open>True\<close> is minus.
\<close>

datatype pyfloat = Finite bool nat int | Infinity bool | NaN

fun bits :: "nat \<Rightarrow> nat" where
  "bits n = (if n = 0 then 0 else Suc (bits (n div 2)))"

declare bits.simps [simp del]

fun normalize :: "nat \<Rightarrow> int \<Rightarrow> nat \<times> int" where
  "normalize m e =
     (if m = 0 then (0, 0)
      else if even m then normalize (m div 2) (e + 1)
      else (m, e))"

declare normalize.simps [simp del]

text \<open>The quotient \<open>a / b\<close> rounded to the nearest natural number, ties to even.\<close>

definition div_round_half_even :: "nat \<Rightarrow> nat \<Rightarrow> nat" where
  "div_round_half_even a b =
     (let q = a div b; r = a mod b
      in if 2 * r < b then q
         else if b < 2 * r then q + 1
         else if even q then q else q + 1)"

text \<open>\<open>ge_pow2 a b k\<close> is \<open>2^k \<le> a / b\<close>.\<close>

definition ge_pow2 :: "nat \<Rightarrow> nat \<Rightarrow> int \<Rightarrow> bool" where
  "ge_pow2 a b k = (if 0 \<le> k then b * 2 ^ nat k \<le> a else b \<le> a * 2 ^ nat (- k))"

text \<open>
  The positive rational \<open>a / b\<close> rounded to binary64, to nearest and ties to even: 53
  significant bits, the exponent of the leading bit no lower than \<open>-1022\<close> (below, the
  subnormal spacing \<open>2^-1074\<close> stays), and infinity from \<open>2^1024\<close> on.
\<close>

definition round_to_double :: "bool \<Rightarrow> nat \<Rightarrow> nat \<Rightarrow> pyfloat" where
  "round_to_double s a b =
     (if a = 0 then Finite s 0 0
      else
        let k = int (bits a) - int (bits b);
            e = (if ge_pow2 a b k then k else k - 1);
            t = max e (- 1022) - 52;
            n = (if 0 \<le> t then div_round_half_even a (b * 2 ^ nat t)
                 else div_round_half_even (a * 2 ^ nat (- t)) b)
        in if 1023 < e \<or> (e = 1023 \<and> n = 2 ^ 53) then Infinity s
           else (case normalize n t of (m, x) \<Rightarrow> Finite s m x))"

text \<open>\<open>m * 2^e\<close> rounded: exact for a value that is a double already.\<close>

definition round_scaled :: "bool \<Rightarrow> nat \<Rightarrow> int \<Rightarrow> pyfloat" where
  "round_scaled s m e =
     (if 0 \<le> e then round_to_double s (m * 2 ^ nat e) 1
      else round_to_double s m (2 ^ nat (- e)))"

definition float_one :: pyfloat where
  "float_one = Finite False 1 0"

definition float_is_zero :: "pyfloat \<Rightarrow> bool" where
  "float_is_zero x = (case x of Finite s m e \<Rightarrow> m = 0 | _ \<Rightarrow> False)"

text \<open>Truth value of a float: only the two zeros are false.\<close>

definition py_float_bool :: "pyfloat \<Rightarrow> bool" where
  "py_float_bool x = (\<not> float_is_zero x)"

text \<open>The comparisons \<^verbatim>\<open>x > 0\<close> and \<^verbatim>\<open>x <= 0\<close>; both are false of NaN.\<close>

definition float_positive :: "pyfloat \<Rightarrow> bool" where
  "float_positive x =
     (case x of Finite s m e \<Rightarrow> \<not> s \<and> m \<noteq> 0 | Infinity s \<Rightarrow> \<not> s | NaN \<Rightarrow> False)"

definition float_le_zero :: "pyfloat \<Rightarrow> bool" where
  "float_le_zero x =
     (case x of Finite s m e \<Rightarrow> s \<or> m = 0 | Infinity s \<Rightarrow> s | NaN \<Rightarrow> False)"

fun ieee_div :: "pyfloat \<Rightarrow> pyfloat \<Rightarrow> pyfloat" where
  "ieee_div NaN y = NaN"
| "ieee_div x NaN = NaN"
| "ieee_div (Infinity s) (Infinity t) = NaN"
| "ieee_div (Infinity s) (Finite t n f) = Infinity (s \<noteq> t)"
| "ieee_div (Finite s m e) (Infinity t) = Finite (s \<noteq> t) 0 0"
| "ieee_div (Finite s m e) (Finite t n f) =
     (if n = 0 then (if m = 0 then NaN else Infinity (s \<noteq> t))
      else if 0 \<le> e - f then round_to_double (s \<noteq> t) (m * 2 ^ nat (e - f)) n
      else round_to_double (s \<noteq> t) m (n * 2 ^ nat (f - e)))"

fun ieee_mul :: "pyfloat \<Rightarrow> pyfloat \<Rightarrow> pyfloat" where
  "ieee_mul NaN y = NaN"
| "ieee_mul x NaN = NaN"
| "ieee_mul (Infinity s) (Infinity t) = Infinity (s \<noteq> t)"
| "ieee_mul (Infinity s) (Finite t n f) = (if n = 0 then NaN else Infinity (s \<noteq> t))"
| "ieee_mul (Finite s m e) (Infinity t) = (if m = 0 then NaN else Infinity (s \<noteq> t))"
| "ieee_mul (Finite s m e) (Finite t n f) = round_scaled (s \<noteq> t) (m * n) (e + f)"

text \<open>\<^verbatim>\<open>a / b\<close> on floats raises on a zero divisor and nowhere else.\<close>

definition py_float_truediv :: "pyfloat \<Rightarrow> pyfloat \<Rightarrow> error + pyfloat" where
  "py_float_truediv a b = (if float_is_zero b then Inl ZeroDivisionError else Inr (ieee_div a b))"

text \<open>
  \<^verbatim>\<open>i * x\<close> with an int \<open>i\<close>: the int is converted to the nearest float first, which raises
  when it is too large for one.
\<close>

definition py_int_to_float :: "int \<Rightarrow> error + pyfloat" where
  "py_int_to_float i =
     (case round_to_double (i < 0) (nat \<bar>i\<bar>) 1 of
        Infinity s \<Rightarrow> Inl OverflowError
      | x \<Rightarrow> Inr x)"

definition py_int_mul_float :: "int \<Rightarrow> pyfloat \<Rightarrow> error + pyfloat" where
  "py_int_mul_float i x =
     (case py_int_to_float i of Inl err \<Rightarrow> Inl err | Inr f \<Rightarrow> Inr (ieee_mul f x))"

subsection \<open>Formatting a float with \<^verbatim>\<open>.6f\<close>\<close>

definition digit_char :: "nat \<Rightarrow> char" where
  "digit_char d = ''0123456789'' ! d"

fun str_nat :: "nat \<Rightarrow> string" where
  "str_nat n = (if n < 10 then [digit_char n] else str_nat (n div 10) @ [digit_char (n mod 10)])"

declare str_nat.simps [simp del]

text \<open>The six digits after the point, for \<open>k < 10^6\<close>.\<close>

definition frac6 :: "nat \<Rightarrow> string" where
  "frac6 k = replicate (6 - length (str_nat k)) (CHR ''0'') @ str_nat k"

text \<open>\<open>m * 2^e * 10^6\<close> rounded to the nearest natural number, ties to even.\<close>

definition micro_units :: "nat \<Rightarrow> int \<Rightarrow> nat" where
  "micro_units m e =
     (if 0 \<le> e then m * 2 ^ nat e * 10 ^ 6
      else div_round_half_even (m * 10 ^ 6) (2 ^ nat (- e)))"

text \<open>
  \<^verbatim>\<open>f"{x:.6f}"\<close>: the exact value of the float rounded to six decimals, the minus sign of
  a negative float kept also when every digit is zero.
\<close>

definition format_6f :: "pyfloat \<Rightarrow> string" where
  "format_6f x =
     (case x of
        NaN \<Rightarrow> ''nan''
      | Infinity s \<Rightarrow> (if s then ''-inf'' else ''inf'')
      | Finite s m e \<Rightarrow>
          (let n = micro_units m e
           in (if s then ''-'' else []) @ str_nat (n div 10 ^ 6) @ ''.'' @ frac6 (n mod 10 ^ 6)))"

subsection \<open>Reading a float from a string\<close>

definition is_digit :: "char \<Rightarrow> bool" where
  "is_digit c = (CHR ''0'' \<le> c \<and> c \<le> CHR ''9'')"

definition digit_val :: "char \<Rightarrow> nat" where
  "digit_val c = of_char c - 48"

definition nat_of_digits :: "string \<Rightarrow> nat" where
  "nat_of_digits ds = foldl (\<lambda>n c. 10 * n + digit_val c) 0 ds"

text \<open>The white space \<^verbatim>\<open>float\<close> strips: tab to carriage return, and the space.\<close>

definition is_space :: "char \<Rightarrow> bool" where
  "is_space c = ((CHR 0x09 \<le> c \<and> c \<le> CHR 0x0D) \<or> c = CHR '' '')"

text \<open>
  Before anything else the two white-space code points above 127 that a \<^typ>\<open>char\<close> can
  hold, NEL and the no-break space, become spaces.
\<close>

definition space_to_ascii :: "char \<Rightarrow> char" where
  "space_to_ascii c = (if c = CHR 0x85 \<or> c = CHR 0xA0 then CHR '' '' else c)"

definition strip :: "string \<Rightarrow> string" where
  "strip s = rev (dropWhile is_space (rev (dropWhile is_space s)))"

text \<open>
  An underscore is allowed between two digits only; \<open>prev\<close> is the character before. The
  result is the string without its underscores.
\<close>

fun remove_underscores :: "char \<Rightarrow> string \<Rightarrow> string option" where
  "remove_underscores prev [] = (if prev = CHR ''_'' then None else Some [])"
| "remove_underscores prev (c # cs) =
     (if c = CHR ''_'' then (if is_digit prev then remove_underscores c cs else None)
      else if prev = CHR ''_'' \<and> \<not> is_digit c then None
      else map_option ((#) c) (remove_underscores c cs))"

definition split_sign :: "string \<Rightarrow> bool \<times> string" where
  "split_sign s =
     (case s of
        [] \<Rightarrow> (False, [])
      | c # r \<Rightarrow> if c = CHR ''-'' then (True, r) else if c = CHR ''+'' then (False, r) else (False, s))"

definition to_lower :: "char \<Rightarrow> char" where
  "to_lower c = (if CHR ''A'' \<le> c \<and> c \<le> CHR ''Z'' then char_of (of_char c + (32::nat)) else c)"

text \<open>The exponent part: nothing, or \<^verbatim>\<open>e\<close> or \<^verbatim>\<open>E\<close>, a sign or none, and one digit or more.\<close>

definition parse_exponent :: "string \<Rightarrow> int option" where
  "parse_exponent s =
     (case s of
        [] \<Rightarrow> Some 0
      | c # r \<Rightarrow>
          if c = CHR ''e'' \<or> c = CHR ''E'' then
            (case split_sign r of
               (neg, ds) \<Rightarrow>
                 if ds \<noteq> [] \<and> list_all is_digit ds
                 then Some (if neg then - int (nat_of_digits ds) else int (nat_of_digits ds))
                 else None)
          else None)"

text \<open>
  An unsigned decimal numeral: digits, a point or none, digits, with a digit on one side of
  the point at least, then the exponent. The result is the pair \<open>(d, x)\<close> of the value
  \<open>d * 10^x\<close>.
\<close>

definition parse_decimal :: "string \<Rightarrow> (nat \<times> int) option" where
  "parse_decimal s =
     (let ip = takeWhile is_digit s;
          r1 = dropWhile is_digit s;
          has_point = (r1 \<noteq> [] \<and> hd r1 = CHR ''.'');
          fp = (if has_point then takeWhile is_digit (tl r1) else []);
          r2 = (if has_point then dropWhile is_digit (tl r1) else r1)
      in if ip = [] \<and> fp = [] then None
         else (case parse_exponent r2 of
                 None \<Rightarrow> None
               | Some x \<Rightarrow> Some (nat_of_digits (ip @ fp), x - int (length fp))))"

definition decimal_to_double :: "bool \<Rightarrow> nat \<Rightarrow> int \<Rightarrow> pyfloat" where
  "decimal_to_double s d x =
     (if 0 \<le> x then round_to_double s (d * 10 ^ nat x) 1
      else round_to_double s d (10 ^ nat (- x)))"

text \<open>
  \<^verbatim>\<open>float(s)\<close> for a string: the numeral correctly rounded, an overflow giving infinity, or
  \<^verbatim>\<open>inf\<close>, \<^verbatim>\<open>infinity\<close> and \<^verbatim>\<open>nan\<close> in any case of letters; anything else raises ValueError.
\<close>

definition py_float :: "string \<Rightarrow> error + pyfloat" where
  "py_float s =
     (case remove_underscores (CHR 0x00) (strip (map space_to_ascii s)) of
        None \<Rightarrow> Inl ValueError
      | Some t \<Rightarrow>
          (case split_sign t of
             (neg, body) \<Rightarrow>
               (case parse_decimal body of
                  Some (d, x) \<Rightarrow> Inr (decimal_to_double neg d x)
                | None \<Rightarrow>
                    (let name = map to_lower body
                     in if name = ''inf'' \<or> name = ''infinity'' then Inr (Infinity neg)
                        else if name = ''nan'' then Inr NaN
                        else Inl ValueError))))"

subsection \<open>Reading the rows of a CSV file\<close>

text \<open>
  The file is opened in text mode, which turns \<^verbatim>\<open>\r\n\<close> and \<^verbatim>\<open>\r\<close> into \<^verbatim>\<open>\n\<close>, and is
  handed to the reader line by line, each line with its \<^verbatim>\<open>\n\<close>.
\<close>

fun universal_newlines :: "string \<Rightarrow> string" where
  "universal_newlines [] = []"
| "universal_newlines (c # cs) =
     (if c = CHR 0x0D then
        (case cs of
           [] \<Rightarrow> [CHR 0x0A]
         | d # ds \<Rightarrow> if d = CHR 0x0A then CHR 0x0A # universal_newlines ds
                     else CHR 0x0A # universal_newlines cs)
      else c # universal_newlines cs)"

fun lines_of :: "string \<Rightarrow> string \<Rightarrow> string list" where
  "lines_of cur [] = (if cur = [] then [] else [cur])"
| "lines_of cur (c # cs) =
     (if c = CHR 0x0A then (cur @ [c]) # lines_of [] cs else lines_of (cur @ [c]) cs)"

text \<open>
  \<^verbatim>\<open>csv.reader\<close> with its default dialect: the delimiter is the comma, the quote character
  the double quote, a doubled quote inside a quoted field stands for one quote, there is no
  escape character, and the reader is not strict. A field of more than 131072 characters is
  an error.
\<close>

datatype parser_state =
  START_RECORD | START_FIELD | IN_FIELD | IN_QUOTED_FIELD | QUOTE_IN_QUOTED_FIELD | EAT_CRNL

record reader =
  pstate :: parser_state
  rfields :: "string list"
  cur_field :: string

definition reader_reset :: reader where
  "reader_reset = \<lparr>pstate = START_RECORD, rfields = [], cur_field = []\<rparr>"

definition field_limit :: nat where
  "field_limit = 131072"

definition parse_add_char :: "reader \<Rightarrow> char \<Rightarrow> error + reader" where
  "parse_add_char r c =
     (if field_limit \<le> length (cur_field r) then Inl CsvError
      else Inr (r\<lparr>cur_field := cur_field r @ [c]\<rparr>))"

definition parse_save_field :: "reader \<Rightarrow> reader" where
  "parse_save_field r = r\<lparr>rfields := rfields r @ [cur_field r], cur_field := []\<rparr>"

definition is_newline :: "char \<Rightarrow> bool" where
  "is_newline c = (c = CHR 0x0A \<or> c = CHR 0x0D)"

definition set_state :: "parser_state \<Rightarrow> reader \<Rightarrow> reader" where
  "set_state st r = r\<lparr>pstate := st\<rparr>"

definition start_field :: "reader \<Rightarrow> char \<Rightarrow> error + reader" where
  "start_field r c =
     (if is_newline c then Inr (set_state EAT_CRNL (parse_save_field r))
      else if c = CHR 0x22 then Inr (set_state IN_QUOTED_FIELD r)
      else if c = CHR '','' then Inr (set_state START_FIELD (parse_save_field r))
      else map_sum id (set_state IN_FIELD) (parse_add_char r c))"

definition parse_process_char :: "reader \<Rightarrow> char \<Rightarrow> error + reader" where
  "parse_process_char r c =
     (case pstate r of
        START_RECORD \<Rightarrow>
          if is_newline c then Inr (set_state EAT_CRNL r) else start_field r c
      | START_FIELD \<Rightarrow> start_field r c
      | IN_FIELD \<Rightarrow>
          if is_newline c then Inr (set_state EAT_CRNL (parse_save_field r))
          else if c = CHR '','' then Inr (set_state START_FIELD (parse_save_field r))
          else parse_add_char r c
      | IN_QUOTED_FIELD \<Rightarrow>
          if c = CHR 0x22 then Inr (set_state QUOTE_IN_QUOTED_FIELD r)
          else parse_add_char r c
      | QUOTE_IN_QUOTED_FIELD \<Rightarrow>
          if c = CHR 0x22 then map_sum id (set_state IN_QUOTED_FIELD) (parse_add_char r c)
          else if c = CHR '','' then Inr (set_state START_FIELD (parse_save_field r))
          else if is_newline c then Inr (set_state EAT_CRNL (parse_save_field r))
          else map_sum id (set_state IN_FIELD) (parse_add_char r c)
      | EAT_CRNL \<Rightarrow>
          if is_newline c then Inr r else Inl CsvError)"

text \<open>The end of a line closes the record, unless a quoted field is open.\<close>

definition parse_process_eol :: "reader \<Rightarrow> reader" where
  "parse_process_eol r =
     (case pstate r of
        START_RECORD \<Rightarrow> r
      | START_FIELD \<Rightarrow> set_state START_RECORD (parse_save_field r)
      | IN_FIELD \<Rightarrow> set_state START_RECORD (parse_save_field r)
      | IN_QUOTED_FIELD \<Rightarrow> r
      | QUOTE_IN_QUOTED_FIELD \<Rightarrow> set_state START_RECORD (parse_save_field r)
      | EAT_CRNL \<Rightarrow> set_state START_RECORD r)"

fun parse_line :: "reader \<Rightarrow> string \<Rightarrow> error + reader" where
  "parse_line r [] = Inr (parse_process_eol r)"
| "parse_line r (c # cs) =
     (case parse_process_char r c of Inl err \<Rightarrow> Inl err | Inr r' \<Rightarrow> parse_line r' cs)"

text \<open>
  The rows the reader yields for the lines left. When the input ends inside a record, what
  has been read of it is the last row.
\<close>

fun read_rows :: "reader \<Rightarrow> string list \<Rightarrow> error + string list list" where
  "read_rows r [] =
     (if cur_field r \<noteq> [] \<or> pstate r = IN_QUOTED_FIELD then Inr [rfields (parse_save_field r)]
      else Inr [])"
| "read_rows r (l # ls) =
     (case parse_line r l of
        Inl err \<Rightarrow> Inl err
      | Inr r' \<Rightarrow>
          if pstate r' = START_RECORD then
            (case read_rows reader_reset ls of
               Inl err \<Rightarrow> Inl err
             | Inr rows \<Rightarrow> Inr (rfields r' # rows))
          else read_rows r' ls)"

definition csv_reader :: "string \<Rightarrow> error + string list list" where
  "csv_reader text = read_rows reader_reset (lines_of [] (universal_newlines text))"

subsection \<open>Fixed frame rate\<close>

text \<open>
  The first line of the output names the frame rate with \<^verbatim>\<open>repr\<close> of the float, the
  shortest numeral that reads back as the same float. Nothing below depends on it, and it
  is taken as the parameter \<open>float_repr\<close>.
\<close>

definition columns_line :: string where
  "columns_line = ''# timestamp(s) filename'' @ [CHR 0x0A]"

definition fps_header :: "(pyfloat \<Rightarrow> string) \<Rightarrow> nat \<Rightarrow> pyfloat \<Rightarrow> string" where
  "fps_header float_repr n fps =
     ''# Generated timestamps for '' @ str_nat n @ '' frames at '' @ float_repr fps @ '' fps''
       @ [CHR 0x0A]"

definition record_line :: "pyfloat \<Rightarrow> string \<Rightarrow> string" where
  "record_line timestamp filename = format_6f timestamp @ '' '' @ filename @ [CHR 0x0A]"

text \<open>
  The loop over \<^verbatim>\<open>enumerate(images)\<close>, with the text written so far. An exception leaves
  the file with the lines written before it.
\<close>

fun write_fps_records :: "pyfloat \<Rightarrow> (nat \<times> string) list \<Rightarrow> string \<Rightarrow> (error + unit) \<times> string" where
  "write_fps_records dt [] buf = (Inr (), buf)"
| "write_fps_records dt ((idx, filename) # rest) buf =
     (case py_int_mul_float (int idx) dt of
        Inl err \<Rightarrow> (Inl err, buf)
      | Inr timestamp \<Rightarrow> write_fps_records dt rest (buf @ record_line timestamp filename))"

definition generate_from_fps ::
  "(pyfloat \<Rightarrow> string) \<Rightarrow> pyfloat \<Rightarrow> string \<Rightarrow> string \<Rightarrow> world \<Rightarrow> (error + unit) \<times> world" where
  "generate_from_fps float_repr fps left_dir output_file w =
     (let images = get_sorted_images w left_dir
      in if images = [] then (Inl (EmptyDirectory left_dir), w)
         else
           (case py_float_truediv float_one fps of
              Inl err \<Rightarrow> (Inl err, w)
            | Inr dt \<Rightarrow>
                (case write_fps_records dt (enumerate 0 images)
                        (fps_header float_repr (length images) fps @ columns_line) of
                   (res, text) \<Rightarrow> (res, write_file output_file text w))))"

subsection \<open>Timestamps from a CSV file\<close>

text \<open>
  One turn of the loop over the rows. The timestamp is appended before the file name is
  looked up, so an IndexError of the second lookup keeps the timestamp.
\<close>

definition csv_row :: "int \<Rightarrow> int option \<Rightarrow> pyfloat list \<times> string list \<Rightarrow> string list
    \<Rightarrow> pyfloat list \<times> string list" where
  "csv_row time_column filename_column acc row =
     (case acc of
        (timestamps, filenames_from_csv) \<Rightarrow>
          if row \<noteq> [] \<and> \<not> startswith (hd row) ''#'' then
            (case py_index row time_column of
               Inl err \<Rightarrow> acc
             | Inr cell \<Rightarrow>
                 (case py_float cell of
                    Inl err \<Rightarrow> acc
                  | Inr timestamp \<Rightarrow>
                      (case filename_column of
                         None \<Rightarrow> (timestamps @ [timestamp], filenames_from_csv)
                       | Some col \<Rightarrow>
                           (case py_index row col of
                              Inl err \<Rightarrow> (timestamps @ [timestamp], filenames_from_csv)
                            | Inr name \<Rightarrow>
                                (timestamps @ [timestamp], filenames_from_csv @ [name])))))
          else acc)"

definition csv_rows :: "int \<Rightarrow> int option \<Rightarrow> string list list \<Rightarrow> pyfloat list \<times> string list" where
  "csv_rows time_column filename_column rows =
     foldl (csv_row time_column filename_column) ([], []) rows"

definition csv_header :: "string \<Rightarrow> string" where
  "csv_header csv_file = ''# Generated from '' @ csv_file @ [CHR 0x0A]"

definition csv_output :: "string \<Rightarrow> (pyfloat \<times> string) list \<Rightarrow> string" where
  "csv_output csv_file output_list =
     csv_header csv_file @ columns_line
       @ concat (map (\<lambda>(timestamp, filename). record_line timestamp filename) output_list)"

definition generate_from_csv ::
  "string \<Rightarrow> string \<Rightarrow> string \<Rightarrow> int \<Rightarrow> int option \<Rightarrow> world \<Rightarrow> (error + unit) \<times> world" where
  "generate_from_csv csv_file left_dir output_file time_column filename_column w =
     (let images = get_sorted_images w left_dir
      in if images = [] then (Inl (EmptyDirectory left_dir), w)
         else
           (case files w csv_file of
              None \<Rightarrow> (Inl (FileNotFoundError csv_file), w)
            | Some text \<Rightarrow>
                (case csv_reader text of
                   Inl err \<Rightarrow> (Inl err, w)
                 | Inr rows \<Rightarrow>
                     (case csv_rows time_column filename_column rows of
                        (timestamps, filenames_from_csv) \<Rightarrow>
                          if timestamps = [] then (Inl (NoValidRows csv_file), w)
                          else if filenames_from_csv \<noteq> []
                                  \<and> length filenames_from_csv = length timestamps then
                            (Inr (), write_file output_file
                               (csv_output csv_file (zip timestamps filenames_from_csv)) w)
                          else if length timestamps = length images then
                            (Inr (), write_file output_file
                               (csv_output csv_file (zip timestamps images)) w)
                          else
                            (Inl (CountMismatch (length timestamps) (length images)), w)))))"

subsection \<open>The command line\<close>

text \<open>
  The arguments as \<^verbatim>\<open>argparse\<close> leaves them: \<^verbatim>\<open>--fps\<close> and \<^verbatim>\<open>--csv-file\<close> are \<open>None\<close> when
  absent, \<^verbatim>\<open>--filename-column\<close> has the default \<open>None\<close> and \<^verbatim>\<open>--time-column\<close> the default 0.
\<close>

record args =
  fps :: "pyfloat option"
  csv_file :: "string option"
  time_column :: int
  filename_column :: "int option"
  left_dir :: string
  output_arg :: string

text \<open>
  What \<^verbatim>\<open>main\<close> ends up calling. An argument counts as given when it is true in Python's
  sense: a float other than zero, a string other than the empty one.
\<close>

datatype call =
    Call_generate_from_fps pyfloat string string
  | Call_generate_from_csv string string string int "int option"

definition given_fps :: "args \<Rightarrow> pyfloat option" where
  "given_fps a = (case fps a of None \<Rightarrow> None | Some f \<Rightarrow> if py_float_bool f then Some f else None)"

definition given_csv_file :: "args \<Rightarrow> string option" where
  "given_csv_file a = (case csv_file a of None \<Rightarrow> None | Some s \<Rightarrow> if s \<noteq> [] then Some s else None)"

definition main_dispatch :: "args \<Rightarrow> world \<Rightarrow> error + call" where
  "main_dispatch a w =
     (case (given_fps a, given_csv_file a) of
        (None, None) \<Rightarrow> Inl InvalidInvocation
      | (Some f, Some c) \<Rightarrow> Inl InvalidInvocation
      | (Some f, None) \<Rightarrow>
          if \<not> isdir w (left_dir a) then Inl (DirectoryNotFound (left_dir a))
          else Inr (Call_generate_from_fps f (left_dir a) (output_arg a))
      | (None, Some c) \<Rightarrow>
          if \<not> isdir w (left_dir a) then Inl (DirectoryNotFound (left_dir a))
          else Inr (Call_generate_from_csv c (left_dir a) (output_arg a)
                      (time_column a) (filename_column a)))"

definition run_call :: "(pyfloat \<Rightarrow> string) \<Rightarrow> call \<Rightarrow> world \<Rightarrow> (error + unit) \<times> world" where
  "run_call float_repr c w =
     (case c of
        Call_generate_from_fps f d out \<Rightarrow> generate_from_fps float_repr f d out w
      | Call_generate_from_csv c d out tc fc \<Rightarrow> generate_from_csv c d out tc fc w)"

definition main :: "(pyfloat \<Rightarrow> string) \<Rightarrow> args \<Rightarrow> world \<Rightarrow> (error + unit) \<times> world" where
  "main float_repr a w =
     (case main_dispatch a w of
        Inl err \<Rightarrow> (Inl err, w)
      | Inr c \<Rightarrow> run_call float_repr c w)"

subsection \<open>Notions of the specification, and inputs for the examples\<close>

definition is_fatal_condition :: "error \<Rightarrow> bool" where
  "is_fatal_condition e =
     (case e of EmptyDirectory d \<Rightarrow> True | NoValidRows c \<Rightarrow> True | CountMismatch a b \<Rightarrow> True | _ \<Rightarrow> False)"

definition row_skipped :: "int \<Rightarrow> string list \<Rightarrow> bool" where
  "row_skipped tcol row =
     (row = [] \<or> startswith (hd row) ''#''
      \<or> (case py_index row tcol of
            Inl err \<Rightarrow> True
          | Inr cell \<Rightarrow> (case py_float cell of Inl err \<Rightarrow> True | Inr t \<Rightarrow> False)))"

definition short_row :: "int \<Rightarrow> int \<Rightarrow> string list \<Rightarrow> bool" where
  "short_row tcol col row =
     (\<not> row_skipped tcol row \<and> py_index row col = Inl IndexError)"

definition example_repr :: "pyfloat \<Rightarrow> string" where
  "example_repr x = ''1.0''"

definition table_text :: string where
  "table_text = ''# header'' @ [CHR 0x0A] @ ''1.0,imgA.png'' @ [CHR 0x0A] @ ''bad,row'' @ [CHR 0x0A]
     @ ''2.0,imgB.png'' @ [CHR 0x0A]"

definition table_rows :: "string list list" where
  "table_rows = [[''# header''], [''1.0'', ''imgA.png''], [''bad'', ''row''], [''2.0'', ''imgB.png'']]"

text \<open>
  \<open>glob_lists w d prefix\<close>: the pattern is answered with the PNG files of \<open>d\<close> itself, each
  behind the directory part \<open>prefix\<close>. This is what \<^verbatim>\<open>glob\<close> does when the name of the
  directory has none of the characters \<^verbatim>\<open>*\<close>, \<^verbatim>\<open>?\<close> and \<^verbatim>\<open>[\<close>; with one of them the name is
  read as a pattern itself.
\<close>

definition glob_lists :: "world \<Rightarrow> string \<Rightarrow> string \<Rightarrow> bool" where
  "glob_lists w d prefix =
     (glob w (os_path_join d ''*.png'') = map ((@) prefix) (png_entries w d)
      \<and> (prefix = [] \<or> last prefix = CHR ''/'')
      \<and> list_all (\<lambda>n. CHR ''/'' \<notin> set n) (png_entries w d))"

definition example_world :: "string list \<Rightarrow> world" where
  "example_world names =
     \<lparr>isdir = (\<lambda>d. d = ''ir''),
      png_entries = (\<lambda>d. if d = ''ir'' then names else []),
      glob = (\<lambda>p. if p = ''ir/*.png'' then map ((@) ''ir/'') names else []),
      files = [''t.csv'' \<mapsto> table_text]\<rparr>"

text \<open>
  Three directories side by side: \<^verbatim>\<open>ir?\<close> is empty, \<^verbatim>\<open>ir1\<close> holds \<^verbatim>\<open>b.png\<close> and \<^verbatim>\<open>ir2\<close> holds
  \<^verbatim>\<open>a.png\<close>. The pattern \<^verbatim>\<open>ir?/*.png\<close> matches the files of \<^verbatim>\<open>ir1\<close> and \<^verbatim>\<open>ir2\<close>.
\<close>

definition pattern_world :: world where
  "pattern_world =
     \<lparr>isdir = (\<lambda>d. d = ''ir?'' \<or> d = ''ir1'' \<or> d = ''ir2''),
      png_entries = (\<lambda>d. if d = ''ir1'' then [''b.png''] else if d = ''ir2'' then [''a.png''] else []),
      glob = (\<lambda>p. if p = ''ir?/*.png'' then [''ir1/b.png'', ''ir2/a.png''] else []),
      files = [''t.csv'' \<mapsto> table_text]\<rparr>"

definition example_args :: "pyfloat option \<Rightarrow> string option \<Rightarrow> int \<Rightarrow> int option \<Rightarrow> args" where
  "example_args f c tc fc =
     \<lparr>fps = f, csv_file = c, time_column = tc, filename_column = fc,
      left_dir = ''ir'', output_arg = ''out.txt''\<rparr>"






section \<open>Properties\<close>

subsection \<open>The listing\<close>

lemma get_sorted_images_Nil:
  "get_sorted_images w d = [] \<longleftrightarrow> glob w (os_path_join d ''*.png'') = []"
  by (simp add: get_sorted_images_def Let_def) (metis length_0_conv length_sort)

lemma append_le_append: "p @ x \<le> p @ y \<longleftrightarrow> x \<le> y" for p x y :: string
  by (induction p) simp_all

lemma insort_map_prefix:
  "insort (p @ x) (map ((@) p) ys) = map ((@) p) (insort x ys)" for p x :: string
  by (induction ys) (simp_all add: append_le_append)

lemma sort_map_prefix: "sort (map ((@) p) xs) = map ((@) p) (sort xs)" for p :: string
  by (induction xs) (simp_all add: insort_map_prefix)

lemma basename_prefix:
  assumes "prefix = [] \<or> last prefix = CHR ''/''" and "CHR ''/'' \<notin> set n"
  shows "os_path_basename (prefix @ n) = n"
proof -
  have "takeWhile (\<lambda>c. c \<noteq> CHR ''/'') (rev n @ rev prefix)
          = rev n @ takeWhile (\<lambda>c. c \<noteq> CHR ''/'') (rev prefix)"
    using assms(2) by (intro takeWhile_append2) auto
  moreover have "takeWhile (\<lambda>c. c \<noteq> CHR ''/'') (rev prefix) = []"
    using assms(1) by (cases prefix rule: rev_cases) auto
  ultimately show ?thesis by (simp add: os_path_basename_def)
qed

text \<open>
  When the pattern is answered with the files of the directory itself, the listing is
  their names in ascending order.
\<close>

lemma get_sorted_images_literal:
  assumes "glob_lists w d prefix"
  shows "get_sorted_images w d = sort (png_entries w d)"
proof -
  from assms have g: "glob w (os_path_join d ''*.png'') = map ((@) prefix) (png_entries w d)"
    and p: "prefix = [] \<or> last prefix = CHR ''/''"
    and n: "\<forall>n\<in>set (png_entries w d). CHR ''/'' \<notin> set n"
    by (simp_all add: glob_lists_def list_all_iff)
  from n have "os_path_basename (prefix @ n) = n" if "n \<in> set (sort (png_entries w d))" for n
    using basename_prefix [OF p] that by simp
  then have "map (\<lambda>n. os_path_basename (prefix @ n)) (sort (png_entries w d)) = sort (png_entries w d)"
    by (intro map_idI) simp
  then show ?thesis
    by (simp add: get_sorted_images_def g sort_map_prefix comp_def)
qed

subsection \<open>Fatal exits\<close>

lemma write_fps_records_error:
  "write_fps_records dt xs buf = (Inl e, text) \<Longrightarrow> e = OverflowError"
proof (induction xs arbitrary: buf)
  case Nil
  then show ?case by simp
next
  case (Cons x xs)
  obtain idx name where x: "x = (idx, name)" by (cases x)
  show ?case
  proof (cases "py_int_mul_float (int idx) dt")
    case (Inl err)
    then have "err = OverflowError"
      by (auto simp: py_int_mul_float_def py_int_to_float_def split: sum.splits pyfloat.splits)
    with Cons.prems Inl x show ?thesis by simp
  next
    case (Inr t)
    with Cons x show ?thesis by simp
  qed
qed

lemma generate_from_fps_empty:
  "get_sorted_images w d = [] \<Longrightarrow> generate_from_fps R f d out w = (Inl (EmptyDirectory d), w)"
  by (simp add: generate_from_fps_def)

lemma generate_from_csv_empty:
  "get_sorted_images w d = [] \<Longrightarrow> generate_from_csv c d out tc fc w = (Inl (EmptyDirectory d), w)"
  by (simp add: generate_from_csv_def)

lemma main_dispatch_left_dir:
  "main_dispatch a w = Inr cl \<Longrightarrow>
     (\<exists>f. cl = Call_generate_from_fps f (left_dir a) (output_arg a))
   \<or> (\<exists>c. cl = Call_generate_from_csv c (left_dir a) (output_arg a) (time_column a) (filename_column a))"
  by (auto simp: main_dispatch_def split: option.splits if_splits)

text \<open>
  An empty listing ends the run with EmptyDirectory and the world as it was, in both
  modes: before the frame rate is used (whatever it is, zero too), before the CSV file is
  opened (whether it exists or not).
\<close>

lemma empty_listing_is_fatal:
  assumes "get_sorted_images w d = []"
  shows "generate_from_fps float_repr f d out w = (Inl (EmptyDirectory d), w)
       \<and> generate_from_csv c d out tc fc w = (Inl (EmptyDirectory d), w)
       \<and> (left_dir a = d \<and> main_dispatch a w = Inr cl \<longrightarrow>
            main float_repr a w = (Inl (EmptyDirectory d), w))"
proof -
  have "main float_repr a w = (Inl (EmptyDirectory d), w)"
    if "left_dir a = d" and "main_dispatch a w = Inr cl"
    using main_dispatch_left_dir [OF that(2)] that assms
    by (auto simp: main_def run_call_def generate_from_fps_empty generate_from_csv_empty)
  then show ?thesis
    using assms by (simp add: generate_from_fps_empty generate_from_csv_empty)
qed

lemma generate_from_csv_error_world:
  "generate_from_csv c d out tc fc w = (Inl e, w') \<Longrightarrow> w' = w"
  by (auto simp: generate_from_csv_def Let_def split: if_splits option.splits sum.splits prod.splits)

lemma generate_from_fps_fatal_world:
  assumes "generate_from_fps R f d out w = (Inl e, w')" and "is_fatal_condition e"
  shows "w' = w"
proof (cases "get_sorted_images w d = []")
  case True
  with assms show ?thesis by (simp add: generate_from_fps_def)
next
  case False
  show ?thesis
  proof (cases "py_float_truediv float_one f")
    case (Inl err)
    with False assms show ?thesis by (simp add: generate_from_fps_def)
  next
    case (Inr dt)
    obtain res body where wr:
      "write_fps_records dt (enumerate 0 (get_sorted_images w d))
         (fps_header R (length (get_sorted_images w d)) f @ columns_line) = (res, body)"
      by (cases "write_fps_records dt (enumerate 0 (get_sorted_images w d))
         (fps_header R (length (get_sorted_images w d)) f @ columns_line)")
    with False Inr assms have "res = Inl e" by (simp add: generate_from_fps_def Let_def)
    with wr have "e = OverflowError" using write_fps_records_error by blast
    with assms(2) show ?thesis by (simp add: is_fatal_condition_def)
  qed
qed

text \<open>
  Claim C8. A run that ends in EmptyDirectory, NoValidRows or CountMismatch returns the world it
  was given: no file is written, and a file at the output path stays as it was. For the CSV
  mode this holds of every error.
\<close>

theorem fatal_condition_writes_nothing:
  "(generate_from_fps float_repr f d out w = (Inl e, w') \<and> is_fatal_condition e \<longrightarrow> w' = w)
 \<and> (generate_from_csv c d out tc fc w = (Inl e, w') \<and> is_fatal_condition e \<longrightarrow> w' = w)
 \<and> (main float_repr a w = (Inl e, w') \<and> is_fatal_condition e \<longrightarrow> w' = w)"
proof -
  have "w' = w" if m: "main float_repr a w = (Inl e, w')" and fe: "is_fatal_condition e"
  proof (cases "main_dispatch a w")
    case (Inl err)
    with m show ?thesis by (simp add: main_def)
  next
    case (Inr cl)
    with m fe show ?thesis
      by (cases cl)
         (auto simp: main_def run_call_def
               dest: generate_from_fps_fatal_world generate_from_csv_error_world)
  qed
  then show ?thesis
    using generate_from_fps_fatal_world generate_from_csv_error_world by blast
qed

lemma py_index_error: "py_index xs i = Inl e \<Longrightarrow> e = IndexError"
  by (auto simp: py_index_def Let_def split: if_splits)

lemma csv_row_skipped: "row_skipped tc row \<Longrightarrow> csv_row tc fc acc row = acc"
  by (cases acc) (auto simp: row_skipped_def csv_row_def split: sum.splits)

lemma csv_row_kept:
  assumes "\<not> row_skipped tc row"
  obtains cell t where "py_index row tc = Inr cell" and "py_float cell = Inr t"
    and "csv_row tc None (ts, fns) row = (ts @ [t], fns)"
    and "\<And>col. csv_row tc (Some col) (ts, fns) row =
           (ts @ [t], case py_index row col of Inl err \<Rightarrow> fns | Inr name \<Rightarrow> fns @ [name])"
proof -
  from assms obtain cell where c: "py_index row tc = Inr cell"
    by (auto simp: row_skipped_def split: sum.splits)
  with assms obtain t where t: "py_float cell = Inr t"
    by (auto simp: row_skipped_def split: sum.splits)
  from assms have r: "row \<noteq> []" "\<not> startswith (hd row) ''#''"
    by (auto simp: row_skipped_def)
  show thesis
  proof (rule that [OF c t])
    show "csv_row tc None (ts, fns) row = (ts @ [t], fns)"
      using c t r by (simp add: csv_row_def)
    show "csv_row tc (Some col) (ts, fns) row =
           (ts @ [t], case py_index row col of Inl err \<Rightarrow> fns | Inr name \<Rightarrow> fns @ [name])" for col
      using c t r by (simp add: csv_row_def split: sum.splits)
  qed
qed

lemma foldl_csv_row_filter:
  "foldl (csv_row tc fc) acc rows = foldl (csv_row tc fc) acc (filter (\<lambda>row. \<not> row_skipped tc row) rows)"
  by (induction rows arbitrary: acc) (simp_all add: csv_row_skipped)

lemma csv_rows_filter:
  "csv_rows tc fc rows = csv_rows tc fc (filter (\<lambda>row. \<not> row_skipped tc row) rows)"
  unfolding csv_rows_def by (rule foldl_csv_row_filter)

lemma csv_rows_all_skipped:
  "\<forall>row\<in>set rows. row_skipped tc row \<Longrightarrow> csv_rows tc fc rows = ([], [])"
proof -
  assume "\<forall>row\<in>set rows. row_skipped tc row"
  then have "filter (\<lambda>row. \<not> row_skipped tc row) rows = []" by (induction rows) auto
  then show ?thesis using csv_rows_filter [of tc fc rows] by (simp add: csv_rows_def)
qed

text \<open>
  Claim C4. One turn of the row loop leaves the two lists as they are when the row is empty or its
  first field begins with \<^verbatim>\<open>#\<close>, when the row has no field at the timestamp column
  (IndexError), and when that field is not a float (ValueError). The loop goes on with
  the next row: the lists at the end are those of the rows that are not skipped, met in
  the same order. When every row is skipped, the run ends with NoValidRows and the world
  as it was.
\<close>

theorem table_parsing_policy:
  "(row = [] \<or> startswith (hd row) ''#'' \<longrightarrow> csv_row tc fc acc row = acc)
 \<and> (py_index row tc = Inl IndexError \<longrightarrow> csv_row tc fc acc row = acc)
 \<and> (py_index row tc = Inr cell \<and> py_float cell = Inl ValueError \<longrightarrow> csv_row tc fc acc row = acc)
 \<and> csv_rows tc fc rows = csv_rows tc fc (filter (\<lambda>row. \<not> row_skipped tc row) rows)
 \<and> (get_sorted_images w d \<noteq> [] \<and> files w c = Some table \<and> csv_reader table = Inr rows
      \<and> (\<forall>row\<in>set rows. row_skipped tc row)
    \<longrightarrow> generate_from_csv c d out tc fc w = (Inl (NoValidRows c), w))"
proof -
  have a: "csv_row tc fc acc row = acc" if "row = [] \<or> startswith (hd row) ''#''"
    using that by (intro csv_row_skipped) (auto simp: row_skipped_def)
  have b: "csv_row tc fc acc row = acc" if "py_index row tc = Inl IndexError"
    using that by (intro csv_row_skipped) (simp add: row_skipped_def)
  have c: "csv_row tc fc acc row = acc" if "py_index row tc = Inr cell" "py_float cell = Inl ValueError"
    using that by (intro csv_row_skipped) (simp add: row_skipped_def)
  have e: "generate_from_csv c d out tc fc w = (Inl (NoValidRows c), w)"
    if "get_sorted_images w d \<noteq> []" "files w c = Some table" "csv_reader table = Inr rows"
       "\<forall>row\<in>set rows. row_skipped tc row"
    using that csv_rows_all_skipped [OF that(4), of fc]
    by (simp add: generate_from_csv_def)
  from a b c e csv_rows_filter show ?thesis by blast
qed

text \<open>
  The choice of the output, once there is an image and a timestamp: the file names of the
  table when there are as many as timestamps, else the listing when it has as many names
  as there are timestamps, else CountMismatch with the two counts.
\<close>

lemma selection_priority:
  assumes "get_sorted_images w d = images" and "images \<noteq> []"
    and "files w c = Some table" and "csv_reader table = Inr rows"
    and "csv_rows tc fc rows = (timestamps, filenames)" and "timestamps \<noteq> []"
  shows "(length filenames = length timestamps \<longrightarrow>
            generate_from_csv c d out tc fc w =
              (Inr (), write_file out (csv_output c (zip timestamps filenames)) w))
       \<and> (length filenames \<noteq> length timestamps \<and> length timestamps = length images \<longrightarrow>
            generate_from_csv c d out tc fc w =
              (Inr (), write_file out (csv_output c (zip timestamps images)) w))
       \<and> (length filenames \<noteq> length timestamps \<and> length timestamps \<noteq> length images \<longrightarrow>
            generate_from_csv c d out tc fc w =
              (Inl (CountMismatch (length timestamps) (length images)), w))"
  using assms by (auto simp: generate_from_csv_def)

lemma foldl_csv_row_lengths:
  "length (snd acc) \<le> length (fst acc) \<Longrightarrow>
   length (snd (foldl (csv_row tc fc) acc rows)) \<le> length (fst (foldl (csv_row tc fc) acc rows))"
proof (induction rows arbitrary: acc)
  case Nil
  then show ?case by simp
next
  case (Cons row rows)
  have "length (snd (csv_row tc fc acc row)) \<le> length (fst (csv_row tc fc acc row))"
    using Cons.prems
    by (cases acc) (auto simp: csv_row_def split: sum.splits option.splits)
  then show ?case using Cons.IH by simp
qed

lemma foldl_csv_row_strict:
  "length (snd acc) < length (fst acc) \<Longrightarrow>
   length (snd (foldl (csv_row tc fc) acc rows)) < length (fst (foldl (csv_row tc fc) acc rows))"
proof (induction rows arbitrary: acc)
  case Nil
  then show ?case by simp
next
  case (Cons row rows)
  have "length (snd (csv_row tc fc acc row)) < length (fst (csv_row tc fc acc row))"
    using Cons.prems
    by (cases acc) (auto simp: csv_row_def split: sum.splits option.splits)
  then show ?case using Cons.IH by simp
qed

lemma csv_row_short:
  assumes "short_row tc col row"
  shows "\<exists>t. csv_row tc (Some col) (ts, fns) row = (ts @ [t], fns)"
proof -
  from assms have ns: "\<not> row_skipped tc row" and ie: "py_index row col = Inl IndexError"
    by (simp_all add: short_row_def)
  from ns obtain cell t where
    "csv_row tc (Some col) (ts, fns) row =
       (ts @ [t], case py_index row col of Inl err \<Rightarrow> fns | Inr name \<Rightarrow> fns @ [name])"
    by (rule csv_row_kept [where ts = ts and fns = fns]) blast
  with ie show ?thesis by simp
qed

lemma csv_rows_short:
  assumes "row \<in> set rows" and "short_row tc col row"
  shows "length (snd (csv_rows tc (Some col) rows)) < length (fst (csv_rows tc (Some col) rows))"
proof -
  from assms(1) obtain pre post where rows: "rows = pre @ row # post"
    by (auto simp: in_set_conv_decomp)
  define acc where "acc = foldl (csv_row tc (Some col)) ([], []) pre"
  have le: "length (snd acc) \<le> length (fst acc)"
    unfolding acc_def by (rule foldl_csv_row_lengths) simp
  obtain t where "csv_row tc (Some col) (fst acc, snd acc) row = (fst acc @ [t], snd acc)"
    using csv_row_short [OF assms(2)] by blast
  then have "length (snd (csv_row tc (Some col) acc row)) < length (fst (csv_row tc (Some col) acc row))"
    using le by simp
  then show ?thesis
    unfolding csv_rows_def rows acc_def by (simp add: foldl_csv_row_strict)
qed

text \<open>
  Claim C9. With a file name column, a row whose timestamp is read but which has no field at the
  file name column gives its timestamp and no file name. When the table has such a row,
  there are fewer file names than timestamps at the end, and the run either pairs the
  timestamps with the sorted images of the directory or ends with CountMismatch: the file
  names of the table are not used.
\<close>

theorem short_row_keeps_timestamp:
  "(row \<noteq> [] \<and> \<not> startswith (hd row) ''#'' \<and> py_index row tc = Inr cell \<and> py_float cell = Inr t
      \<and> py_index row col = Inl IndexError
    \<longrightarrow> csv_row tc (Some col) (ts, fns) row = (ts @ [t], fns))
 \<and> (row \<in> set rows \<and> short_row tc col row \<and> get_sorted_images w d \<noteq> []
      \<and> files w c = Some table \<and> csv_reader table = Inr rows
    \<longrightarrow> length (snd (csv_rows tc (Some col) rows)) < length (fst (csv_rows tc (Some col) rows))
      \<and> (generate_from_csv c d out tc (Some col) w =
            (Inr (), write_file out
               (csv_output c (zip (fst (csv_rows tc (Some col) rows)) (get_sorted_images w d))) w)
         \<or> generate_from_csv c d out tc (Some col) w =
            (Inl (CountMismatch (length (fst (csv_rows tc (Some col) rows)))
                                (length (get_sorted_images w d))), w)))"
proof -
  have a: "csv_row tc (Some col) (ts, fns) row = (ts @ [t], fns)"
    if "row \<noteq> []" "\<not> startswith (hd row) ''#''" "py_index row tc = Inr cell" "py_float cell = Inr t"
       "py_index row col = Inl IndexError"
    using that by (simp add: csv_row_def)
  have b: "length (snd (csv_rows tc (Some col) rows)) < length (fst (csv_rows tc (Some col) rows))
      \<and> (generate_from_csv c d out tc (Some col) w =
            (Inr (), write_file out
               (csv_output c (zip (fst (csv_rows tc (Some col) rows)) (get_sorted_images w d))) w)
         \<or> generate_from_csv c d out tc (Some col) w =
            (Inl (CountMismatch (length (fst (csv_rows tc (Some col) rows)))
                                (length (get_sorted_images w d))), w))"
    if "row \<in> set rows" "short_row tc col row" "get_sorted_images w d \<noteq> []"
       "files w c = Some table" "csv_reader table = Inr rows"
  proof -
    have lt: "length (snd (csv_rows tc (Some col) rows)) < length (fst (csv_rows tc (Some col) rows))"
      using that(1,2) by (rule csv_rows_short)
    obtain tss fnn where cr: "csv_rows tc (Some col) rows = (tss, fnn)"
      by (cases "csv_rows tc (Some col) rows")
    with lt have "tss \<noteq> []" "length fnn \<noteq> length tss" by auto
    with that cr lt show ?thesis
      by (auto simp: generate_from_csv_def Let_def)
  qed
  from a b show ?thesis by blast
qed

lemmas float_eval = round_to_double_def bits.simps ge_pow2_def div_round_half_even_def
  normalize.simps Let_def

lemmas parse_eval = py_float_def strip_def space_to_ascii_def is_space_def is_digit_def
  split_sign_def parse_decimal_def parse_exponent_def nat_of_digits_def digit_val_def
  decimal_to_double_def to_lower_def

lemma py_float_1: "py_float ''1.0'' = Inr (Finite False 1 0)"
  by (simp add: parse_eval float_eval)

lemma py_float_2: "py_float ''2.0'' = Inr (Finite False 1 1)"
  by (simp add: parse_eval float_eval)

lemma py_float_bad: "py_float ''bad'' = Inl ValueError"
  by (simp add: parse_eval float_eval)

lemma py_float_names:
  "py_float ''imgA.png'' = Inl ValueError"
  "py_float ''imgB.png'' = Inl ValueError"
  "py_float ''row'' = Inl ValueError"
  by (simp_all add: parse_eval float_eval)

lemmas row_eval = csv_rows_def csv_row_def py_index_def startswith_def table_rows_def
  py_float_1 py_float_2 py_float_bad py_float_names

lemma csv_reader_table: "csv_reader table_text = Inr table_rows"
  by code_simp

lemma csv_rows_table_names:
  "csv_rows 0 (Some 1) table_rows =
     ([Finite False 1 0, Finite False 1 1], [''imgA.png'', ''imgB.png''])"
  by (simp add: row_eval)

lemma csv_rows_table_plain:
  "csv_rows 0 None table_rows = ([Finite False 1 0, Finite False 1 1], [])"
  by (simp add: row_eval)

lemma csv_rows_table_short:
  "csv_rows 0 (Some 2) table_rows = ([Finite False 1 0, Finite False 1 1], [])"
  by (simp add: row_eval)

lemma csv_rows_table_none: "csv_rows 1 None table_rows = ([], [])"
  by (simp add: row_eval)

lemma images_two: "get_sorted_images (example_world [''b.png'', ''a.png'']) ''ir'' = [''a.png'', ''b.png'']"
  by code_simp

lemma images_three:
  "get_sorted_images (example_world [''b.png'', ''c.png'', ''a.png'']) ''ir''
     = [''a.png'', ''b.png'', ''c.png'']"
  by code_simp

lemma images_none: "get_sorted_images (example_world []) ''ir'' = []"
  by code_simp

lemma images_pattern: "get_sorted_images pattern_world ''ir?'' = [''b.png'', ''a.png'']"
  by code_simp

lemma example_world_simps:
  "files (example_world names) ''t.csv'' = Some table_text"
  "png_entries (example_world names) ''ir'' = names"
  "isdir (example_world names) ''ir''"
  "glob (example_world names) ''ir/*.png'' = map ((@) ''ir/'') names"
  by (simp_all add: example_world_def)

lemma pattern_world_simps:
  "files pattern_world ''t.csv'' = Some table_text"
  "png_entries pattern_world ''ir?'' = []"
  "isdir pattern_world ''ir?''"
  by (simp_all add: pattern_world_def)

lemma run_mismatch:
  "generate_from_csv ''t.csv'' ''ir'' ''out.txt'' 0 None (example_world [''b.png'', ''c.png'', ''a.png''])
     = (Inl (CountMismatch 2 3), example_world [''b.png'', ''c.png'', ''a.png''])"
  by (simp add: generate_from_csv_def images_three example_world_simps csv_reader_table
      csv_rows_table_plain)

lemma run_no_valid_rows:
  "generate_from_csv ''t.csv'' ''ir'' ''out.txt'' 1 None (example_world [''b.png'', ''a.png''])
     = (Inl (NoValidRows ''t.csv''), example_world [''b.png'', ''a.png''])"
  by (simp add: generate_from_csv_def images_two example_world_simps csv_reader_table
      csv_rows_table_none)

lemma main_no_valid_rows:
  "main example_repr (example_args None (Some ''t.csv'') 1 None) (example_world [''b.png'', ''a.png''])
     = (Inl (NoValidRows ''t.csv''), example_world [''b.png'', ''a.png''])"
  by (simp add: main_def main_dispatch_def given_fps_def given_csv_file_def example_args_def
      example_world_simps run_call_def run_no_valid_rows)

theorem fatal_condition_writes_nothing_witness:
  "generate_from_fps example_repr (Finite False 1 0) ''ir'' ''out.txt'' (example_world [])
     = (Inl (EmptyDirectory ''ir''), example_world [])
 \<and> is_fatal_condition (EmptyDirectory ''ir'')
 \<and> generate_from_csv ''t.csv'' ''ir'' ''out.txt'' 0 None (example_world [''b.png'', ''c.png'', ''a.png''])
     = (Inl (CountMismatch 2 3), example_world [''b.png'', ''c.png'', ''a.png''])
 \<and> is_fatal_condition (CountMismatch 2 3)
 \<and> main example_repr (example_args None (Some ''t.csv'') 1 None) (example_world [''b.png'', ''a.png''])
     = (Inl (NoValidRows ''t.csv''), example_world [''b.png'', ''a.png''])
 \<and> is_fatal_condition (NoValidRows ''t.csv'')
 \<and> files (example_world [''b.png'', ''a.png'']) ''out.txt'' = None"
proof -
  have e: "generate_from_fps example_repr (Finite False 1 0) ''ir'' ''out.txt'' (example_world [])
     = (Inl (EmptyDirectory ''ir''), example_world [])"
    by (simp add: generate_from_fps_empty images_none)
  have f: "is_fatal_condition (EmptyDirectory ''ir'')" "is_fatal_condition (CountMismatch 2 3)"
    "is_fatal_condition (NoValidRows ''t.csv'')"
    by (simp_all add: is_fatal_condition_def)
  have n: "files (example_world [''b.png'', ''a.png'']) ''out.txt'' = None"
    by (simp add: example_world_def)
  note t1 = fatal_condition_writes_nothing [of example_repr "Finite False 1 0" "''ir''" "''out.txt''"
      "example_world []" "EmptyDirectory ''ir''" "example_world []"]
  note t2 = fatal_condition_writes_nothing [of _ _ "''ir''" "''out.txt''"
      "example_world [''b.png'', ''c.png'', ''a.png'']" "CountMismatch 2 3"
      "example_world [''b.png'', ''c.png'', ''a.png'']" "''t.csv''" 0 None]
  note t3 = fatal_condition_writes_nothing [of example_repr _ _ _
      "example_world [''b.png'', ''a.png'']" "NoValidRows ''t.csv''"
      "example_world [''b.png'', ''a.png'']" _ _ _ "example_args None (Some ''t.csv'') 1 None"]
  from t1 t2 t3 e f n run_mismatch main_no_valid_rows show ?thesis by simp
qed

lemma selection_priority_examples:
  "generate_from_csv ''t.csv'' ''ir'' ''out.txt'' 0 (Some 1) (example_world [''b.png'', ''a.png''])
     = (Inr (), write_file ''out.txt''
          (csv_output ''t.csv'' [(Finite False 1 0, ''imgA.png''), (Finite False 1 1, ''imgB.png'')])
          (example_world [''b.png'', ''a.png'']))
 \<and> generate_from_csv ''t.csv'' ''ir'' ''out.txt'' 0 None (example_world [''b.png'', ''a.png''])
     = (Inr (), write_file ''out.txt''
          (csv_output ''t.csv'' [(Finite False 1 0, ''a.png''), (Finite False 1 1, ''b.png'')])
          (example_world [''b.png'', ''a.png'']))
 \<and> generate_from_csv ''t.csv'' ''ir'' ''out.txt'' 0 None (example_world [''b.png'', ''c.png'', ''a.png''])
     = (Inl (CountMismatch 2 3), example_world [''b.png'', ''c.png'', ''a.png''])"
proof -
  note t1 = selection_priority [OF images_two _ example_world_simps(1) csv_reader_table
      csv_rows_table_names, of "''out.txt''"]
  note t2 = selection_priority [OF images_two _ example_world_simps(1) csv_reader_table
      csv_rows_table_plain, of "''out.txt''"]
  note t3 = selection_priority [OF images_three _ example_world_simps(1) csv_reader_table
      csv_rows_table_plain, of "''out.txt''"]
  from t1 t2 t3 show ?thesis by simp
qed

lemma table_rows_all_skipped: "\<forall>row\<in>set table_rows. row_skipped 1 row"
  by (simp add: table_rows_def row_skipped_def py_index_def startswith_def py_float_names)

theorem table_parsing_policy_witness:
  "startswith (hd [''# header'']) ''#''
 \<and> csv_row 0 (Some 1) ([Finite False 1 0], [''imgA.png'']) [''# header'']
     = ([Finite False 1 0], [''imgA.png''])
 \<and> py_index [''1.0''] 1 = Inl IndexError
 \<and> csv_row 1 None ([Finite False 1 0], []) [''1.0''] = ([Finite False 1 0], [])
 \<and> py_index [''bad'', ''row''] 0 = Inr ''bad'' \<and> py_float ''bad'' = Inl ValueError
 \<and> csv_row 0 None ([Finite False 1 0], []) [''bad'', ''row''] = ([Finite False 1 0], [])
 \<and> list_all (row_skipped 1) table_rows
 \<and> generate_from_csv ''t.csv'' ''ir'' ''out.txt'' 1 None (example_world [''b.png'', ''a.png''])
     = (Inl (NoValidRows ''t.csv''), example_world [''b.png'', ''a.png''])"
proof -
  have a: "startswith (hd [''# header'']) ''#''" by (simp add: startswith_def)
  have b: "py_index [''1.0''] 1 = Inl IndexError" by (simp add: py_index_def)
  have c: "py_index [''bad'', ''row''] 0 = Inr ''bad''" by (simp add: py_index_def)
  have p: "get_sorted_images (example_world [''b.png'', ''a.png'']) ''ir'' \<noteq> []"
    by (simp add: images_two)
  note t1 = table_parsing_policy [of "[''# header'']" 0 "Some 1" "([Finite False 1 0], [''imgA.png''])"]
  note t2 = table_parsing_policy [of "[''1.0'']" 1 None "([Finite False 1 0], [])"]
  note t3 = table_parsing_policy [of "[''bad'', ''row'']" 0 None "([Finite False 1 0], [])" "''bad''"]
  note t4 = table_parsing_policy [of _ 1 None _ _ table_rows "example_world [''b.png'', ''a.png'']"
      "''ir''" "''t.csv''" table_text "''out.txt''"]
  from t1 a have r1: "csv_row 0 (Some 1) ([Finite False 1 0], [''imgA.png'']) [''# header'']
     = ([Finite False 1 0], [''imgA.png''])" by blast
  from t2 b have r2: "csv_row 1 None ([Finite False 1 0], []) [''1.0''] = ([Finite False 1 0], [])"
    by blast
  from t3 c py_float_bad
  have r3: "csv_row 0 None ([Finite False 1 0], []) [''bad'', ''row''] = ([Finite False 1 0], [])"
    by blast
  from t4 p example_world_simps(1) csv_reader_table table_rows_all_skipped
  have r4: "generate_from_csv ''t.csv'' ''ir'' ''out.txt'' 1 None (example_world [''b.png'', ''a.png''])
     = (Inl (NoValidRows ''t.csv''), example_world [''b.png'', ''a.png''])"
    by blast
  from table_rows_all_skipped have l: "list_all (row_skipped 1) table_rows"
    by (simp add: list_all_iff)
  from a b c py_float_bad l r1 r2 r3 r4 show ?thesis by blast
qed

lemma short_row_table: "short_row 0 2 [''1.0'', ''imgA.png'']"
  by (simp add: short_row_def row_skipped_def py_index_def startswith_def py_float_1)

theorem short_row_keeps_timestamp_witness:
  "py_index [''1.0''] 0 = Inr ''1.0'' \<and> py_float ''1.0'' = Inr (Finite False 1 0)
 \<and> py_index [''1.0''] 1 = Inl IndexError
 \<and> csv_row 0 (Some 1) ([], []) [''1.0''] = ([Finite False 1 0], [])
 \<and> [''1.0'', ''imgA.png''] \<in> set table_rows \<and> short_row 0 2 [''1.0'', ''imgA.png'']
 \<and> length (snd (csv_rows 0 (Some 2) table_rows)) < length (fst (csv_rows 0 (Some 2) table_rows))
 \<and> generate_from_csv ''t.csv'' ''ir'' ''out.txt'' 0 (Some 2) (example_world [''b.png'', ''a.png''])
     = (Inr (), write_file ''out.txt''
          (csv_output ''t.csv'' [(Finite False 1 0, ''a.png''), (Finite False 1 1, ''b.png'')])
          (example_world [''b.png'', ''a.png'']))"
proof -
  have a: "[''1.0''] \<noteq> []" "\<not> startswith (hd [''1.0'']) ''#''" "py_index [''1.0''] 0 = Inr ''1.0''"
    "py_index [''1.0''] 1 = Inl IndexError"
    by (simp_all add: py_index_def startswith_def)
  have m: "[''1.0'', ''imgA.png''] \<in> set table_rows" by (simp add: table_rows_def)
  have p: "get_sorted_images (example_world [''b.png'', ''a.png'']) ''ir'' \<noteq> []"
    by (simp add: images_two)
  note t1 = short_row_keeps_timestamp [of "[''1.0'']" 0 "''1.0''" "Finite False 1 0" 1 "[]" "[]"]
  note t2 = short_row_keeps_timestamp [of "[''1.0'', ''imgA.png'']" 0 _ _ 2 _ _ table_rows
      "example_world [''b.png'', ''a.png'']" "''ir''" "''t.csv''" table_text "''out.txt''"]
  from t1 a py_float_1 have r1: "csv_row 0 (Some 1) ([], []) [''1.0''] = ([Finite False 1 0], [])"
    by simp
  from t2 m short_row_table p example_world_simps(1) csv_reader_table
  have lt: "length (snd (csv_rows 0 (Some 2) table_rows)) < length (fst (csv_rows 0 (Some 2) table_rows))"
    by blast
  have r2: "generate_from_csv ''t.csv'' ''ir'' ''out.txt'' 0 (Some 2) (example_world [''b.png'', ''a.png''])
     = (Inr (), write_file ''out.txt''
          (csv_output ''t.csv'' [(Finite False 1 0, ''a.png''), (Finite False 1 1, ''b.png'')])
          (example_world [''b.png'', ''a.png'']))"
    by (simp add: generate_from_csv_def images_two example_world_simps csv_reader_table
        csv_rows_table_short)
  from a py_float_1 m short_row_table lt r1 r2 show ?thesis by simp
qed

subsection \<open>A directory name that is a pattern\<close>

lemma truediv_one: "py_float_truediv float_one (Finite False 1 0) = Inr (Finite False 1 0)"
  by (simp add: py_float_truediv_def float_is_zero_def float_one_def float_eval)

lemma int_mul_one:
  "py_int_mul_float 0 (Finite False 1 0) = Inr (Finite False 0 0)"
  "py_int_mul_float 1 (Finite False 1 0) = Inr (Finite False 1 0)"
  by (simp_all add: py_int_mul_float_def py_int_to_float_def round_scaled_def float_eval)

lemma str_nat_digits: "str_nat 0 = ''0''" "str_nat 1 = ''1''" "str_nat 2 = ''2''"
  by (simp_all add: str_nat.simps digit_char_def)

lemma frac6_0: "frac6 0 = ''000000''"
  by (simp add: frac6_def str_nat_digits eval_nat_numeral)

lemma micro_units_values:
  "micro_units 0 0 = 0" "micro_units 1 0 = 1000000" "micro_units 1 1 = 2000000"
  by (simp_all add: micro_units_def)

lemma format_6f_values:
  "format_6f (Finite False 0 0) = ''0.000000''"
  "format_6f (Finite False 1 0) = ''1.000000''"
  "format_6f (Finite False 1 1) = ''2.000000''"
  by (simp_all add: format_6f_def micro_units_values str_nat_digits frac6_0 del: One_nat_def)

lemma record_lines:
  "record_line (Finite False 0 0) name = ''0.000000 '' @ name @ [CHR 0x0A]"
  "record_line (Finite False 1 0) name = ''1.000000 '' @ name @ [CHR 0x0A]"
  "record_line (Finite False 1 1) name = ''2.000000 '' @ name @ [CHR 0x0A]"
  by (simp_all add: record_line_def format_6f_values del: One_nat_def)

text \<open>
  Claim C7. The script hands the directory to \<^verbatim>\<open>glob\<close> as it is, so a directory name with
  \<^verbatim>\<open>*\<close>, \<^verbatim>\<open>?\<close> or \<^verbatim>\<open>[\<close> is read as a pattern. The directory \<^verbatim>\<open>ir?\<close> of \<open>pattern_world\<close> holds
  no PNG file, and the listing for it is \<^verbatim>\<open>b.png\<close>, \<^verbatim>\<open>a.png\<close>, the files of \<^verbatim>\<open>ir1\<close> and \<^verbatim>\<open>ir2\<close>:
  neither mode ends with EmptyDirectory, both write the output file.
\<close>

theorem pattern_directory_is_not_empty:
  "isdir pattern_world ''ir?'' \<and> png_entries pattern_world ''ir?'' = []
 \<and> get_sorted_images pattern_world ''ir?'' = [''b.png'', ''a.png'']
 \<and> generate_from_fps example_repr (Finite False 1 0) ''ir?'' ''out.txt'' pattern_world
      = (Inr (), write_file ''out.txt''
           (fps_header example_repr 2 (Finite False 1 0) @ columns_line
              @ ''0.000000 b.png'' @ [CHR 0x0A] @ ''1.000000 a.png'' @ [CHR 0x0A])
           pattern_world)
 \<and> generate_from_csv ''t.csv'' ''ir?'' ''out.txt'' 0 (Some 1) pattern_world
      = (Inr (), write_file ''out.txt''
           (csv_header ''t.csv'' @ columns_line
              @ ''1.000000 imgA.png'' @ [CHR 0x0A] @ ''2.000000 imgB.png'' @ [CHR 0x0A])
           pattern_world)"
proof -
  have f: "generate_from_fps example_repr (Finite False 1 0) ''ir?'' ''out.txt'' pattern_world
      = (Inr (), write_file ''out.txt''
           (fps_header example_repr 2 (Finite False 1 0) @ columns_line
              @ ''0.000000 b.png'' @ [CHR 0x0A] @ ''1.000000 a.png'' @ [CHR 0x0A])
           pattern_world)"
    by (simp add: generate_from_fps_def images_pattern truediv_one int_mul_one record_lines
        numeral_2_eq_2 del: One_nat_def)
  have c: "generate_from_csv ''t.csv'' ''ir?'' ''out.txt'' 0 (Some 1) pattern_world
      = (Inr (), write_file ''out.txt''
           (csv_header ''t.csv'' @ columns_line
              @ ''1.000000 imgA.png'' @ [CHR 0x0A] @ ''2.000000 imgB.png'' @ [CHR 0x0A])
           pattern_world)"
    by (simp add: generate_from_csv_def images_pattern pattern_world_simps csv_reader_table
        csv_rows_table_names csv_output_def record_lines del: One_nat_def)
  from f c images_pattern pattern_world_simps show ?thesis by simp
qed

text \<open>
  Claim C3. In the same world the second branch of the selection is taken, and the
  timestamps are paired with \<^verbatim>\<open>b.png\<close> before \<^verbatim>\<open>a.png\<close>: the names are sorted by their paths
  \<^verbatim>\<open>ir1/b.png\<close> and \<^verbatim>\<open>ir2/a.png\<close>, and are not in ascending order themselves.
\<close>

theorem pattern_directory_pairs_unsorted:
  "get_sorted_images pattern_world ''ir?'' = [''b.png'', ''a.png'']
 \<and> \<not> sorted [''b.png'', ''a.png'']
 \<and> csv_rows 0 None table_rows = ([Finite False 1 0, Finite False 1 1], [])
 \<and> generate_from_csv ''t.csv'' ''ir?'' ''out.txt'' 0 None pattern_world
      = (Inr (), write_file ''out.txt''
           (csv_header ''t.csv'' @ columns_line
              @ ''1.000000 b.png'' @ [CHR 0x0A] @ ''2.000000 a.png'' @ [CHR 0x0A])
           pattern_world)"
proof -
  have u: "\<not> sorted [''b.png'', ''a.png'']" by simp
  have c: "generate_from_csv ''t.csv'' ''ir?'' ''out.txt'' 0 None pattern_world
      = (Inr (), write_file ''out.txt''
           (csv_header ''t.csv'' @ columns_line
              @ ''1.000000 b.png'' @ [CHR 0x0A] @ ''2.000000 a.png'' @ [CHR 0x0A])
           pattern_world)"
    by (simp add: generate_from_csv_def images_pattern pattern_world_simps csv_reader_table
        csv_rows_table_plain csv_output_def record_lines del: One_nat_def)
  from u c images_pattern csv_rows_table_plain show ?thesis by simp
qed

subsection \<open>The frame rate that reaches the division\<close>

lemma given_fps_Some: "given_fps a = Some f \<longleftrightarrow> fps a = Some f \<and> \<not> float_is_zero f"
  by (auto simp: given_fps_def py_float_bool_def split: option.splits)

lemma given_fps_None:
  "given_fps a = None \<longleftrightarrow> fps a = None \<or> (\<exists>z. fps a = Some z \<and> float_is_zero z)"
  by (auto simp: given_fps_def py_float_bool_def split: option.splits)

lemma dispatch_fps:
  "main_dispatch a w = Inr (Call_generate_from_fps f d out) \<Longrightarrow> given_fps a = Some f"
  by (auto simp: main_dispatch_def split: option.splits if_splits)

text \<open>
  Claim C2, as amended. \<^verbatim>\<open>main\<close> tests the frame rate for truth only: it calls
  \<^verbatim>\<open>generate_from_fps\<close> with the frame rate it was given and never with a zero; a missing or
  zero frame rate never reaches \<^verbatim>\<open>generate_from_fps\<close>, and without a CSV file the
  invocation is rejected. Nothing tests the sign.
\<close>

theorem zero_or_missing_fps_is_rejected:
  "(main_dispatch a w = Inr (Call_generate_from_fps f d out) \<longrightarrow>
      fps a = Some f \<and> \<not> float_is_zero f)
 \<and> (fps a = None \<or> (\<exists>z. fps a = Some z \<and> float_is_zero z) \<longrightarrow>
      (\<forall>f' d' out'. main_dispatch a w \<noteq> Inr (Call_generate_from_fps f' d' out')))
 \<and> ((fps a = None \<or> (\<exists>z. fps a = Some z \<and> float_is_zero z)) \<and> given_csv_file a = None \<longrightarrow>
      main float_repr a w = (Inl InvalidInvocation, w))"
proof -
  have 1: "fps a = Some f \<and> \<not> float_is_zero f"
    if "main_dispatch a w = Inr (Call_generate_from_fps f d out)"
    using dispatch_fps [OF that] by (simp add: given_fps_Some)
  have 2: "main_dispatch a w \<noteq> Inr (Call_generate_from_fps f' d' out')"
    if "fps a = None \<or> (\<exists>z. fps a = Some z \<and> float_is_zero z)" for f' d' out'
  proof
    assume "main_dispatch a w = Inr (Call_generate_from_fps f' d' out')"
    from dispatch_fps [OF this] that show False
      by (auto simp: given_fps_Some)
  qed
  have 3: "main float_repr a w = (Inl InvalidInvocation, w)"
    if "fps a = None \<or> (\<exists>z. fps a = Some z \<and> float_is_zero z)" "given_csv_file a = None"
  proof -
    from that(1) have "given_fps a = None" by (simp add: given_fps_None)
    with that(2) show ?thesis by (simp add: main_def main_dispatch_def)
  qed
  from 1 2 3 show ?thesis by blast
qed

lemma dispatch_example_fps:
  "\<not> float_is_zero f \<Longrightarrow>
   main_dispatch (example_args (Some f) None 0 None) (example_world names)
     = Inr (Call_generate_from_fps f ''ir'' ''out.txt'')"
  by (simp add: main_dispatch_def given_fps_def given_csv_file_def example_args_def
      example_world_simps py_float_bool_def)

theorem zero_or_missing_fps_is_rejected_witness:
  "main_dispatch (example_args (Some (Finite False 1 0)) None 0 None) (example_world [''b.png'', ''a.png''])
     = Inr (Call_generate_from_fps (Finite False 1 0) ''ir'' ''out.txt'')
 \<and> fps (example_args (Some (Finite False 1 0)) None 0 None) = Some (Finite False 1 0)
 \<and> \<not> float_is_zero (Finite False 1 0)
 \<and> fps (example_args (Some (Finite True 0 0)) None 0 None) = Some (Finite True 0 0)
 \<and> float_is_zero (Finite True 0 0)
 \<and> given_csv_file (example_args (Some (Finite True 0 0)) None 0 None) = None
 \<and> (\<forall>f' d' out'. main_dispatch (example_args (Some (Finite True 0 0)) None 0 None)
        (example_world [''b.png'', ''a.png'']) \<noteq> Inr (Call_generate_from_fps f' d' out'))
 \<and> main example_repr (example_args (Some (Finite True 0 0)) None 0 None)
       (example_world [''b.png'', ''a.png''])
     = (Inl InvalidInvocation, example_world [''b.png'', ''a.png''])"
proof -
  have nz: "\<not> float_is_zero (Finite False 1 0)" by (simp add: float_is_zero_def)
  have z: "float_is_zero (Finite True 0 0)" by (simp add: float_is_zero_def)
  have f1: "fps (example_args (Some (Finite False 1 0)) None 0 None) = Some (Finite False 1 0)"
    and f0: "fps (example_args (Some (Finite True 0 0)) None 0 None) = Some (Finite True 0 0)"
    and c0: "given_csv_file (example_args (Some (Finite True 0 0)) None 0 None) = None"
    by (simp_all add: example_args_def given_csv_file_def)
  note d = dispatch_example_fps [OF nz, of "[''b.png'', ''a.png'']"]
  note t1 = zero_or_missing_fps_is_rejected [of "example_args (Some (Finite False 1 0)) None 0 None"
      "example_world [''b.png'', ''a.png'']" "Finite False 1 0" "''ir''" "''out.txt''"]
  note t0 = zero_or_missing_fps_is_rejected [of "example_args (Some (Finite True 0 0)) None 0 None"
      "example_world [''b.png'', ''a.png'']" _ _ _ example_repr]
  from t0 f0 z c0
  have r2: "\<forall>f' d' out'. main_dispatch (example_args (Some (Finite True 0 0)) None 0 None)
        (example_world [''b.png'', ''a.png'']) \<noteq> Inr (Call_generate_from_fps f' d' out')"
    and r3: "main example_repr (example_args (Some (Finite True 0 0)) None 0 None)
       (example_world [''b.png'', ''a.png''])
     = (Inl InvalidInvocation, example_world [''b.png'', ''a.png''])"
    by blast+
  from t1 d nz z f1 f0 c0 r2 r3 show ?thesis by blast
qed

lemma truediv_minus_one: "py_float_truediv float_one (Finite True 1 0) = Inr (Finite True 1 0)"
  by (simp add: py_float_truediv_def float_is_zero_def float_one_def float_eval)

lemma int_mul_minus_one:
  "py_int_mul_float 0 (Finite True 1 0) = Inr (Finite True 0 0)"
  "py_int_mul_float 1 (Finite True 1 0) = Inr (Finite True 1 0)"
  by (simp_all add: py_int_mul_float_def py_int_to_float_def round_scaled_def float_eval)

lemma format_6f_negative:
  "format_6f (Finite True 0 0) = ''-0.000000''"
  "format_6f (Finite True 1 0) = ''-1.000000''"
  by (simp_all add: format_6f_def micro_units_values str_nat_digits frac6_0 del: One_nat_def)

text \<open>
  The claim as stated fails: the frame rate \<open>-1.0\<close> is not positive, \<^verbatim>\<open>main\<close> calls
  \<^verbatim>\<open>generate_from_fps\<close> with it, and the run writes timestamps that go down from \<open>-0.0\<close>.
\<close>

theorem negative_fps_is_dispatched:
  "float_le_zero (Finite True 1 0)
 \<and> main_dispatch (example_args (Some (Finite True 1 0)) None 0 None) (example_world [''b.png'', ''a.png''])
     = Inr (Call_generate_from_fps (Finite True 1 0) ''ir'' ''out.txt'')
 \<and> main example_repr (example_args (Some (Finite True 1 0)) None 0 None)
       (example_world [''b.png'', ''a.png''])
     = (Inr (), write_file ''out.txt''
          (fps_header example_repr 2 (Finite True 1 0) @ columns_line
             @ ''-0.000000 a.png'' @ [CHR 0x0A] @ ''-1.000000 b.png'' @ [CHR 0x0A])
          (example_world [''b.png'', ''a.png'']))"
proof -
  have nz: "\<not> float_is_zero (Finite True 1 0)" by (simp add: float_is_zero_def)
  note d = dispatch_example_fps [OF nz, of "[''b.png'', ''a.png'']"]
  have g: "generate_from_fps example_repr (Finite True 1 0) ''ir'' ''out.txt''
       (example_world [''b.png'', ''a.png''])
     = (Inr (), write_file ''out.txt''
          (fps_header example_repr 2 (Finite True 1 0) @ columns_line
             @ ''-0.000000 a.png'' @ [CHR 0x0A] @ ''-1.000000 b.png'' @ [CHR 0x0A])
          (example_world [''b.png'', ''a.png'']))"
    by (simp add: generate_from_fps_def images_two truediv_minus_one int_mul_minus_one
        record_line_def format_6f_negative numeral_2_eq_2 del: One_nat_def)
  have l: "float_le_zero (Finite True 1 0)" by (simp add: float_le_zero_def)
  from l d g show ?thesis by (simp add: main_def run_call_def)
qed

lemma parse_add_char_error: "parse_add_char r c = Inl e \<Longrightarrow> e = CsvError"
  by (auto simp: parse_add_char_def split: if_splits)

lemma map_sum_add_char_error: "map_sum id f (parse_add_char r c) = Inl e \<Longrightarrow> e = CsvError"
  by (cases "parse_add_char r c") (auto dest: parse_add_char_error)

lemma parse_process_char_error: "parse_process_char r c = Inl e \<Longrightarrow> e = CsvError"
  by (auto simp: parse_process_char_def start_field_def
      split: parser_state.splits if_splits
      dest: parse_add_char_error map_sum_add_char_error)

lemma parse_line_error: "parse_line r l = Inl e \<Longrightarrow> e = CsvError"
proof (induction l arbitrary: r)
  case Nil
  then show ?case by simp
next
  case (Cons c cs)
  then show ?case
    by (cases "parse_process_char r c") (auto dest: parse_process_char_error)
qed

lemma read_rows_error: "read_rows r ls = Inl e \<Longrightarrow> e = CsvError"
proof (induction ls arbitrary: r)
  case Nil
  then show ?case by (simp split: if_splits)
next
  case (Cons l ls)
  show ?case
  proof (cases "parse_line r l")
    case (Inl err)
    with Cons.prems show ?thesis by (auto dest: parse_line_error)
  next
    case (Inr r')
    with Cons show ?thesis
      by (auto split: if_splits sum.splits)
  qed
qed

lemma csv_reader_error: "csv_reader table = Inl e \<Longrightarrow> e = CsvError"
  unfolding csv_reader_def by (rule read_rows_error)

lemma generate_from_csv_no_zero_division:
  "fst (generate_from_csv c d out tc fc w) \<noteq> Inl ZeroDivisionError"
  by (auto simp: generate_from_csv_def Let_def
      split: if_splits option.splits sum.splits prod.splits dest: csv_reader_error)

lemma generate_from_fps_no_zero_division:
  assumes "\<not> float_is_zero f"
  shows "fst (generate_from_fps R f d out w) \<noteq> Inl ZeroDivisionError"
proof (cases "get_sorted_images w d = []")
  case True
  then show ?thesis by (simp add: generate_from_fps_def)
next
  case False
  obtain res body where wr:
    "write_fps_records (ieee_div float_one f) (enumerate 0 (get_sorted_images w d))
       (fps_header R (length (get_sorted_images w d)) f @ columns_line) = (res, body)"
    by (cases "write_fps_records (ieee_div float_one f) (enumerate 0 (get_sorted_images w d))
       (fps_header R (length (get_sorted_images w d)) f @ columns_line)")
  then have "res \<noteq> Inl ZeroDivisionError"
    using write_fps_records_error by fastforce
  with False assms wr show ?thesis
    by (simp add: generate_from_fps_def py_float_truediv_def Let_def)
qed

text \<open>
  Claim C10. When \<^verbatim>\<open>main\<close> calls \<^verbatim>\<open>generate_from_fps\<close> the frame rate is not zero, so the
  division \<^verbatim>\<open>1.0 / fps\<close> does not raise; no run of \<^verbatim>\<open>main\<close> ends with ZeroDivisionError;
  and a frame rate of zero with no CSV file is rejected as an invocation without a mode.
  (With a CSV file, a zero frame rate counts as absent and the CSV mode runs.)
\<close>

theorem main_never_divides_by_zero:
  "(main_dispatch a w = Inr (Call_generate_from_fps f d out) \<longrightarrow>
      \<not> float_is_zero f \<and> py_float_truediv float_one f = Inr (ieee_div float_one f))
 \<and> fst (main float_repr a w) \<noteq> Inl ZeroDivisionError
 \<and> (fps a = Some z \<and> float_is_zero z \<and> given_csv_file a = None \<longrightarrow>
      main float_repr a w = (Inl InvalidInvocation, w))"
proof -
  have 1: "\<not> float_is_zero f \<and> py_float_truediv float_one f = Inr (ieee_div float_one f)"
    if "main_dispatch a w = Inr (Call_generate_from_fps f d out)"
    using dispatch_fps [OF that] by (simp add: given_fps_Some py_float_truediv_def)
  have 2: "fst (main float_repr a w) \<noteq> Inl ZeroDivisionError"
  proof (cases "main_dispatch a w")
    case (Inl err)
    then have "err \<noteq> ZeroDivisionError"
      by (auto simp: main_dispatch_def split: option.splits if_splits)
    with Inl show ?thesis by (simp add: main_def)
  next
    case (Inr cl)
    show ?thesis
    proof (cases cl)
      case (Call_generate_from_fps f' d' out')
      with Inr have "\<not> float_is_zero f'"
        using dispatch_fps [of a w f' d' out'] by (simp add: given_fps_Some)
      with Inr Call_generate_from_fps show ?thesis
        by (simp add: main_def run_call_def generate_from_fps_no_zero_division)
    next
      case (Call_generate_from_csv c' d' out' tc' fc')
      with Inr show ?thesis
        by (simp add: main_def run_call_def generate_from_csv_no_zero_division)
    qed
  qed
  have 3: "main float_repr a w = (Inl InvalidInvocation, w)"
    if "fps a = Some z" "float_is_zero z" "given_csv_file a = None"
  proof -
    from that(1,2) have "given_fps a = None" by (auto simp: given_fps_None)
    with that(3) show ?thesis by (simp add: main_def main_dispatch_def)
  qed
  from 1 2 3 show ?thesis by blast
qed

theorem main_never_divides_by_zero_witness:
  "main_dispatch (example_args (Some (Finite False 1 0)) None 0 None) (example_world [''b.png'', ''a.png''])
     = Inr (Call_generate_from_fps (Finite False 1 0) ''ir'' ''out.txt'')
 \<and> py_float_truediv float_one (Finite False 1 0) = Inr (Finite False 1 0)
 \<and> fps (example_args (Some (Finite False 0 0)) None 0 None) = Some (Finite False 0 0)
 \<and> float_is_zero (Finite False 0 0)
 \<and> py_float_truediv float_one (Finite False 0 0) = Inl ZeroDivisionError
 \<and> given_csv_file (example_args (Some (Finite False 0 0)) None 0 None) = None
 \<and> main example_repr (example_args (Some (Finite False 0 0)) None 0 None)
       (example_world [''b.png'', ''a.png''])
     = (Inl InvalidInvocation, example_world [''b.png'', ''a.png''])"
proof -
  have nz: "\<not> float_is_zero (Finite False 1 0)" by (simp add: float_is_zero_def)
  have z: "float_is_zero (Finite False 0 0)" by (simp add: float_is_zero_def)
  have zd: "py_float_truediv float_one (Finite False 0 0) = Inl ZeroDivisionError"
    by (simp add: py_float_truediv_def float_is_zero_def)
  have f0: "fps (example_args (Some (Finite False 0 0)) None 0 None) = Some (Finite False 0 0)"
    and c0: "given_csv_file (example_args (Some (Finite False 0 0)) None 0 None) = None"
    by (simp_all add: example_args_def given_csv_file_def)
  note d = dispatch_example_fps [OF nz, of "[''b.png'', ''a.png'']"]
  note t1 = main_never_divides_by_zero [of "example_args (Some (Finite False 1 0)) None 0 None"
      "example_world [''b.png'', ''a.png'']" "Finite False 1 0" "''ir''" "''out.txt''"]
  note t0 = main_never_divides_by_zero [of "example_args (Some (Finite False 0 0)) None 0 None"
      "example_world [''b.png'', ''a.png'']" _ _ _ example_repr "Finite False 0 0"]
  from t0 f0 z c0
  have r3: "main example_repr (example_args (Some (Finite False 0 0)) None 0 None)
       (example_world [''b.png'', ''a.png''])
     = (Inl InvalidInvocation, example_world [''b.png'', ''a.png''])"
    by blast
  from t1 d have "py_float_truediv float_one (Finite False 1 0) = Inr (ieee_div float_one (Finite False 1 0))"
    by blast
  with truediv_one d z zd f0 c0 r3 show ?thesis by simp
qed

subsection \<open>The example table and the round trip\<close>














end
